theory Spec2Isabelle
  imports Complex_Main
begin

section \<open>Python values and errors\<close>

text \<open>
  Metric values are Python floats; they are modelled as reals (NaN and rounding are outside
  the model). Exceptions are values of \<open>py_error\<close>: every function that can raise returns
  \<open>py_error + 'a\<close>, with \<open>Inl\<close> for the exception.
\<close>

datatype py_error = ZeroDivisionError | KeyError | IndexError | ValueError

text \<open>Python's \<^verbatim>\<open>a / b\<close> on floats: a zero divisor raises.\<close>

definition truediv :: "real \<Rightarrow> real \<Rightarrow> py_error + real" where
  "truediv a b = (if b = 0 then Inl ZeroDivisionError else Inr (a / b))"

text \<open>Indexing a Python list, or an axis of a NumPy array: negative indices count from the end.\<close>

definition norm_index :: "nat \<Rightarrow> int \<Rightarrow> py_error + nat" where
  "norm_index n i =
     (let j = (if i < 0 then int n + i else i)
      in if 0 \<le> j \<and> j < int n then Inr (nat j) else Inl IndexError)"

definition getitem :: "'a list \<Rightarrow> int \<Rightarrow> py_error + 'a" where
  "getitem xs i = (case norm_index (length xs) i of Inl e \<Rightarrow> Inl e | Inr j \<Rightarrow> Inr (xs ! j))"

section \<open>Bounds comparator: \<^verbatim>\<open>checker/randomness_checker.py\<close>\<close>

text \<open>One row of the bounds table (a row of the data frame read from the CSV file).\<close>

record bounds_row =
  metric :: string
  expected_mean :: real
  expected_std :: real
  bound_95_lower :: real
  bound_95_upper :: real
  bound_99_lower :: real
  bound_99_upper :: real
  interpretation_text :: string

type_synonym bounds_table = "bounds_row list"

type_synonym metric_record = "string \<rightharpoonup> real"

text \<open>The dictionaries appended to \<^verbatim>\<open>within_bounds\<close> and to \<^verbatim>\<open>outliers\<close>.\<close>

record within_entry =
  w_metric :: string
  w_value :: real
  w_expected_range :: "real \<times> real"
  w_distance_from_mean :: real

record outlier_entry =
  o_metric :: string
  o_value :: real
  o_expected_range :: "real \<times> real"
  o_distance_from_bound :: real
  o_relative_distance :: real
  o_direction :: string
  o_severity :: string
  o_std_distance :: real
  o_interpretation :: string

record analysis_result =
  randomness_score :: real
  assessment :: string
  confidence_level :: int
  total_metrics_tested :: nat
  within_bounds_count :: nat
  outlier_count :: nat
  severe_outlier_count :: nat
  missing_metrics_count :: nat
  outliers :: "outlier_entry list"
  within_bounds :: "within_entry list"
  missing_metrics :: "string list"

text \<open>
  \<^verbatim>\<open>row[bound_col + 'lower']\<close> with \<^verbatim>\<open>bound_col = f'bound_{confidence_level}_'\<close>: the table
  has the columns of levels 95 and 99 only, any other level is a missing column.
\<close>

definition bound_lower :: "int \<Rightarrow> bounds_row \<Rightarrow> py_error + real" where
  "bound_lower cl row =
     (if cl = 95 then Inr (bound_95_lower row)
      else if cl = 99 then Inr (bound_99_lower row)
      else Inl KeyError)"

definition bound_upper :: "int \<Rightarrow> bounds_row \<Rightarrow> py_error + real" where
  "bound_upper cl row =
     (if cl = 95 then Inr (bound_95_upper row)
      else if cl = 99 then Inr (bound_99_upper row)
      else Inl KeyError)"

text \<open>The three lists the loop appends to: outliers, within_bounds, missing_metrics.\<close>

type_synonym scan_state = "outlier_entry list \<times> within_entry list \<times> string list"

text \<open>
  The \<^verbatim>\<open>else\<close> branch of the loop body (lines 71 to 93): the entry of a value outside
  its bounds. The division by \<^verbatim>\<open>expected_mean\<close> has the fallback denominator 1, the
  division by \<^verbatim>\<open>expected_std\<close> has none.
\<close>

definition outlier_of :: "bounds_row \<Rightarrow> real \<Rightarrow> real \<Rightarrow> real \<Rightarrow> py_error + outlier_entry" where
  "outlier_of row val lower upper =
     (let below = val < lower;
          distance_from_bound = (if below then lower - val else val - upper);
          relative_distance =
            distance_from_bound / (if expected_mean row > 0 then expected_mean row else 1);
          direction = (if below then ''below'' else ''above'');
          severity = (if relative_distance > 1 then ''extreme''
                      else if relative_distance > 1 / 2 then ''high'' else ''moderate'')
      in case truediv \<bar>val - expected_mean row\<bar> (expected_std row) of
           Inl e \<Rightarrow> Inl e
         | Inr sd \<Rightarrow> Inr \<lparr> o_metric = metric row, o_value = val,
                          o_expected_range = (lower, upper),
                          o_distance_from_bound = distance_from_bound,
                          o_relative_distance = relative_distance,
                          o_direction = direction, o_severity = severity,
                          o_std_distance = sd,
                          o_interpretation = interpretation_text row \<rparr>)"

text \<open>The \<^verbatim>\<open>if\<close> branch (lines 63 to 69): the entry of a value within its bounds.\<close>

definition within_of :: "bounds_row \<Rightarrow> real \<Rightarrow> real \<Rightarrow> real \<Rightarrow> py_error + within_entry" where
  "within_of row val lower upper =
     (case truediv \<bar>val - expected_mean row\<bar> (expected_std row) of
        Inl e \<Rightarrow> Inl e
      | Inr d \<Rightarrow> Inr \<lparr> w_metric = metric row, w_value = val,
                      w_expected_range = (lower, upper),
                      w_distance_from_mean = d \<rparr>)"

text \<open>One iteration of \<^verbatim>\<open>for _, row in bounds_table.iterrows()\<close>.\<close>

definition scan_row :: "metric_record \<Rightarrow> int \<Rightarrow> bounds_row \<Rightarrow> scan_state \<Rightarrow> py_error + scan_state" where
  "scan_row test_metrics cl row st =
     (case st of (os, ws, ms) \<Rightarrow>
        (case test_metrics (metric row) of
           None \<Rightarrow> Inr (os, ws, ms @ [metric row])
         | Some val \<Rightarrow>
             (case bound_lower cl row of
                Inl e \<Rightarrow> Inl e
              | Inr lower \<Rightarrow>
                  (case bound_upper cl row of
                     Inl e \<Rightarrow> Inl e
                   | Inr upper \<Rightarrow>
                       if lower \<le> val \<and> val \<le> upper
                       then (case within_of row val lower upper of
                               Inl e \<Rightarrow> Inl e
                             | Inr w \<Rightarrow> Inr (os, ws @ [w], ms))
                       else (case outlier_of row val lower upper of
                               Inl e \<Rightarrow> Inl e
                             | Inr ou \<Rightarrow> Inr (os @ [ou], ws, ms))))))"

fun scan_rows :: "metric_record \<Rightarrow> int \<Rightarrow> bounds_row list \<Rightarrow> scan_state \<Rightarrow> py_error + scan_state" where
  "scan_rows test_metrics cl [] st = Inr st"
| "scan_rows test_metrics cl (row # rows) st =
     (case scan_row test_metrics cl row st of
        Inl e \<Rightarrow> Inl e
      | Inr st' \<Rightarrow> scan_rows test_metrics cl rows st')"

text \<open>
  \<^verbatim>\<open>check_sequence_randomness(test_metrics, bounds_table, confidence_level)\<close>, with the
  bounds table given (loading it from the CSV file is outside the model).
\<close>

definition check_sequence_randomness ::
    "metric_record \<Rightarrow> bounds_table \<Rightarrow> int \<Rightarrow> py_error + analysis_result" where
  "check_sequence_randomness test_metrics bounds_table cl =
     (case scan_rows test_metrics cl bounds_table ([], [], []) of
        Inl e \<Rightarrow> Inl e
      | Inr (os, ws, ms) \<Rightarrow>
          (let total_tested = length ws + length os;
               score = (if total_tested > 0 then real (length ws) / real total_tested else 0);
               label = (if score > 90 / 100 then ''highly_likely_random''
                        else if score > 80 / 100 then ''likely_random''
                        else if score > 70 / 100 then ''possibly_random''
                        else if score > 50 / 100 then ''possibly_non_random''
                        else ''likely_non_random'');
               severe_outliers = filter (\<lambda>e. o_severity e \<in> set [''high'', ''extreme'']) os
           in Inr \<lparr> randomness_score = score,
                    assessment = label,
                    confidence_level = cl,
                    total_metrics_tested = total_tested,
                    within_bounds_count = length ws,
                    outlier_count = length os,
                    severe_outlier_count = length severe_outliers,
                    missing_metrics_count = length ms,
                    outliers = os,
                    within_bounds = ws,
                    missing_metrics = ms \<rparr>))"

subsection \<open>Predicates describing the branch the loop takes on a row\<close>

text \<open>
  \<^verbatim>\<open>lower <= value <= upper\<close> for the bound columns of the level (for the levels 95 and 99,
  the only ones whose columns exist).
\<close>

definition in_range :: "int \<Rightarrow> bounds_row \<Rightarrow> real \<Rightarrow> bool" where
  "in_range cl row v =
     (if cl = 95 then bound_95_lower row \<le> v \<and> v \<le> bound_95_upper row
      else bound_99_lower row \<le> v \<and> v \<le> bound_99_upper row)"

text \<open>The row's metric is in \<^verbatim>\<open>test_metrics\<close> and its value is within, or outside, the bounds.\<close>

definition is_within :: "metric_record \<Rightarrow> int \<Rightarrow> bounds_row \<Rightarrow> bool" where
  "is_within tm cl row = (case tm (metric row) of None \<Rightarrow> False | Some v \<Rightarrow> in_range cl row v)"

definition is_outlier :: "metric_record \<Rightarrow> int \<Rightarrow> bounds_row \<Rightarrow> bool" where
  "is_outlier tm cl row = (case tm (metric row) of None \<Rightarrow> False | Some v \<Rightarrow> \<not> in_range cl row v)"

subsection \<open>Example inputs\<close>

text \<open>
  A bounds row with the numbers of the redundancy example (mean 0.015, std 0.005, 95% bounds
  [0.005, 0.025]), a table of ten such rows, and a record with nine values inside the 95%
  bounds and one between the 95% and the 99% upper bound.
\<close>

definition example_row :: "string \<Rightarrow> bounds_row" where
  "example_row name = \<lparr> metric = name, expected_mean = 15 / 1000, expected_std = 5 / 1000,
      bound_95_lower = 5 / 1000, bound_95_upper = 25 / 1000,
      bound_99_lower = 2 / 1000, bound_99_upper = 30 / 1000,
      interpretation_text = ''higher values indicate more predictable patterns'' \<rparr>"

definition example_table :: bounds_table where
  "example_table = map example_row
     [''freq_0'', ''freq_1'', ''freq_2'', ''freq_3'', ''freq_4'',
      ''freq_5'', ''freq_6'', ''freq_7'', ''freq_8'', ''freq_9'']"

definition example_metrics :: metric_record where
  "example_metrics = map_of
     [(''freq_0'', 10 / 1000), (''freq_1'', 10 / 1000), (''freq_2'', 10 / 1000),
      (''freq_3'', 10 / 1000), (''freq_4'', 10 / 1000), (''freq_5'', 10 / 1000),
      (''freq_6'', 10 / 1000), (''freq_7'', 10 / 1000), (''freq_8'', 10 / 1000),
      (''freq_9'', 28 / 1000)]"

section \<open>Metric library: \<^verbatim>\<open>exported_classifier/stat/lib/metrics.py\<close>\<close>

text \<open>
  A sequence is a list of Python ints. The functions also accept a string of digits, which
  they first convert to the list of its digits; the model starts from the list.
\<close>

subsection \<open>\<^verbatim>\<open>statistics.mean\<close>, \<^verbatim>\<open>statistics.stdev\<close>, \<^verbatim>\<open>math.log2\<close>\<close>

text \<open>
  The library functions the metrics call, on the arguments they are called with: \<^verbatim>\<open>mean\<close> on
  a non-empty list, \<^verbatim>\<open>stdev\<close> (the sample standard deviation, divisor \<open>n - 1\<close>) on a list
  of at least two numbers. \<^verbatim>\<open>math.log2\<close> raises ValueError outside the positive numbers.
\<close>

definition statistics_mean :: "real list \<Rightarrow> real" where
  "statistics_mean xs = sum_list xs / real (length xs)"

definition statistics_stdev :: "real list \<Rightarrow> real" where
  "statistics_stdev xs =
     sqrt (sum_list (map (\<lambda>x. (x - statistics_mean xs)\<^sup>2) xs) / real (length xs - 1))"


subsection \<open>\<^verbatim>\<open>redundancy\<close>\<close>



subsection \<open>\<^verbatim>\<open>coupon\<close>\<close>

text \<open>\<^verbatim>\<open>has_all(t)\<close>: \<^verbatim>\<open>all(i in t for i in range(base))\<close>.\<close>

definition has_all :: "int \<Rightarrow> int list \<Rightarrow> bool" where
  "has_all base t = list_all (\<lambda>i. i \<in> set t) [0..base - 1]"

text \<open>
  The inner loop from a starting index: \<open>rest\<close> is what is left of the sequence, \<open>tmp\<close> what
  has been appended so far. It returns the recorded length \<^verbatim>\<open>j + 1\<close> (the length of \<open>tmp\<close>),
  or nothing when the sequence ends before every symbol has been seen.
\<close>

fun collect_from :: "int \<Rightarrow> int list \<Rightarrow> int list \<Rightarrow> nat option" where
  "collect_from base tmp [] = None"
| "collect_from base tmp (x # rest) =
     (let tmp' = tmp @ [x] in
      if has_all base tmp' then Some (length tmp') else collect_from base tmp' rest)"

text \<open>The list \<^verbatim>\<open>res\<close> after the outer loop over the starting indices.\<close>

definition coupon_res :: "int list \<Rightarrow> int \<Rightarrow> nat list" where
  "coupon_res z base =
     List.map_filter (\<lambda>i. collect_from base [] (drop i z)) [0..<length z]"

record mean_std =
  mean :: real
  std :: real

definition coupon :: "int list \<Rightarrow> int \<Rightarrow> mean_std" where
  "coupon z base =
     (let res = coupon_res z base in
      if res = [] then \<lparr> mean = real (length z + 1), std = real (length z + 1) \<rparr>
      else \<lparr> mean = statistics_mean (map real res),
             std = (if length res > 1 then statistics_stdev (map real res) else 0) \<rparr>)"

subsection \<open>\<^verbatim>\<open>pl1\<close> to \<^verbatim>\<open>pl5\<close>\<close>

text \<open>
  \<^verbatim>\<open>_extract_tp_indices\<close>: the non-zero first differences, and the positions at which two
  consecutive ones have opposite signs.
\<close>

definition extract_tp_indices :: "int list \<Rightarrow> nat list" where
  "extract_tp_indices z =
     (let diff = map (\<lambda>i. z ! (i + 1) - z ! i) [0..<length z - 1];
          diff = filter (\<lambda>d. d \<noteq> 0) diff
      in filter (\<lambda>i. diff ! (i - 1) * diff ! i < 0) [1..<length diff])"

text \<open>The number of gaps between consecutive turning points that are equal to \<open>d\<close>.\<close>

definition count_gaps :: "nat list \<Rightarrow> int \<Rightarrow> nat" where
  "count_gaps tp_indices d =
     length (filter (\<lambda>i. int (tp_indices ! i) - int (tp_indices ! (i - 1)) = d)
               [1..<length tp_indices])"

text \<open>
  The module-level generator of Python's \<^verbatim>\<open>random\<close>, seeded once by \<^verbatim>\<open>random.seed(42)\<close> when
  the module is imported, is global mutable state: its state \<open>'g\<close> is threaded through the
  functions that draw from it. The library's \<^verbatim>\<open>random.randint\<close> is a parameter \<open>randint\<close> of
  the model: given the state and the range it returns the number drawn and the next state.
  \<^verbatim>\<open>random.randint(a, b)\<close> raises ValueError for an empty range.
\<close>

type_synonym 'g randint = "'g \<Rightarrow> int \<Rightarrow> int \<Rightarrow> int \<times> 'g"

text \<open>\<^verbatim>\<open>[random.randint(0, base - 1) for _ in range(m)]\<close>.\<close>

fun rand_seq :: "'g randint \<Rightarrow> int \<Rightarrow> nat \<Rightarrow> 'g \<Rightarrow> py_error + (int list \<times> 'g)" where
  "rand_seq randint base 0 g = Inr ([], g)"
| "rand_seq randint base (Suc m) g =
     (if base - 1 < 0 then Inl ValueError
      else case randint g 0 (base - 1) of (x, g') \<Rightarrow>
        (case rand_seq randint base m g' of
           Inl e \<Rightarrow> Inl e
         | Inr (xs, g'') \<Rightarrow> Inr (x # xs, g'')))"

text \<open>The loop of \<^verbatim>\<open>_empirical_expected_pl\<close>: \<open>trials\<close> iterations are left, \<open>tot\<close> is \<^verbatim>\<open>total\<close> so far.\<close>

fun simulate :: "'g randint \<Rightarrow> nat \<Rightarrow> int \<Rightarrow> int \<Rightarrow> nat \<Rightarrow> nat \<Rightarrow> 'g \<Rightarrow> py_error + (nat \<times> 'g)" where
  "simulate randint m d base 0 tot g = Inr (tot, g)"
| "simulate randint m d base (Suc trials) tot g =
     (case rand_seq randint base m g of
        Inl e \<Rightarrow> Inl e
      | Inr (rs, g') \<Rightarrow>
          simulate randint m d base trials (tot + count_gaps (extract_tp_indices rs) d) g')"

definition empirical_expected_pl ::
    "'g randint \<Rightarrow> nat \<Rightarrow> int \<Rightarrow> nat \<Rightarrow> int \<Rightarrow> 'g \<Rightarrow> py_error + (real \<times> 'g)" where
  "empirical_expected_pl randint m d num_trials base g =
     (case simulate randint m d base num_trials 0 g of
        Inl e \<Rightarrow> Inl e
      | Inr (tot, g') \<Rightarrow>
          (case truediv (real tot) (real num_trials) of
             Inl e \<Rightarrow> Inl e
           | Inr q \<Rightarrow> Inr (q, g')))"

text \<open>\<^verbatim>\<open>_pl_d(z, d, base)\<close>: the value returned and the state of the generator afterwards.\<close>

definition pl_d :: "'g randint \<Rightarrow> int list \<Rightarrow> int \<Rightarrow> int \<Rightarrow> 'g \<Rightarrow> py_error + (real \<times> 'g)" where
  "pl_d randint z d base g =
     (let m = length z in
      if int m < d + 3 then Inr (0, g)
      else
        let tp_indices = extract_tp_indices z;
            observed = count_gaps tp_indices d
        in case empirical_expected_pl randint m d 1000 base g of
             Inl e \<Rightarrow> Inl e
           | Inr (expected, g') \<Rightarrow>
               Inr (if expected > 0 then real observed / expected else 0, g'))"


definition pl2 :: "'g randint \<Rightarrow> int list \<Rightarrow> int \<Rightarrow> 'g \<Rightarrow> py_error + (real \<times> 'g)" where
  "pl2 randint z base g = pl_d randint z 2 base g"

definition pl3 :: "'g randint \<Rightarrow> int list \<Rightarrow> int \<Rightarrow> 'g \<Rightarrow> py_error + (real \<times> 'g)" where
  "pl3 randint z base g = pl_d randint z 3 base g"

definition pl4 :: "'g randint \<Rightarrow> int list \<Rightarrow> int \<Rightarrow> 'g \<Rightarrow> py_error + (real \<times> 'g)" where
  "pl4 randint z base g = pl_d randint z 4 base g"

definition pl5 :: "'g randint \<Rightarrow> int list \<Rightarrow> int \<Rightarrow> 'g \<Rightarrow> py_error + (real \<times> 'g)" where
  "pl5 randint z base g = pl_d randint z 5 base g"



section \<open>Transition matrix engine: \<^verbatim>\<open>exported_classifier/trans/lib/transition_probs.py\<close>\<close>

text \<open>\<^verbatim>\<open>np.zeros((base, base), dtype=int)\<close>; a negative dimension raises ValueError.\<close>

definition np_zeros :: "int \<Rightarrow> py_error + nat list list" where
  "np_zeros base =
     (if base < 0 then Inl ValueError
      else Inr (replicate (nat base) (replicate (nat base) 0)))"

text \<open>\<^verbatim>\<open>transitions[from_digit, to_digit] += 1\<close>, the indices already normalised.\<close>

definition increment :: "nat list list \<Rightarrow> nat \<Rightarrow> nat \<Rightarrow> nat list list" where
  "increment t r c = t[r := (t ! r)[c := t ! r ! c + 1]]"

text \<open>The counting loop, over the indices \<open>i\<close> of \<^verbatim>\<open>range(len(sequence) - step)\<close> that are left.\<close>

fun count_transitions ::
    "int list \<Rightarrow> int \<Rightarrow> nat list \<Rightarrow> nat list list \<Rightarrow> py_error + nat list list" where
  "count_transitions sequence step [] t = Inr t"
| "count_transitions sequence step (i # rest) t =
     (case getitem sequence (int i) of
        Inl e \<Rightarrow> Inl e
      | Inr from_digit \<Rightarrow>
          (case getitem sequence (int i + step) of
             Inl e \<Rightarrow> Inl e
           | Inr to_digit \<Rightarrow>
               (case norm_index (length t) from_digit of
                  Inl e \<Rightarrow> Inl e
                | Inr r \<Rightarrow>
                    (case norm_index (length t) to_digit of
                       Inl e \<Rightarrow> Inl e
                     | Inr c \<Rightarrow> count_transitions sequence step rest (increment t r c)))))"

text \<open>
  A float64 cell of a NumPy array. \<^verbatim>\<open>np.nan_to_num\<close> replaces NaN by 0.0 and the
  infinities by the largest and the smallest finite float64; it leaves every other value.
\<close>

datatype npfloat = Finite real | PosInf | NegInf | NaN

definition float64_max :: real where
  "float64_max = (2 ^ 53 - 1) * 2 ^ 971"

fun nan_to_num :: "npfloat \<Rightarrow> real" where
  "nan_to_num (Finite x) = x"
| "nan_to_num NaN = 0"
| "nan_to_num PosInf = float64_max"
| "nan_to_num NegInf = - float64_max"

text \<open>
  \<^verbatim>\<open>np.divide(transitions, row_sums, where=row_sums!=0)\<close> is called without \<^verbatim>\<open>out\<close>: NumPy
  allocates the result array without initialising it and writes the quotients only where
  the mask is true, that is in the rows whose sum is not 0. The other cells keep what the
  allocated memory held; \<open>uninit r c\<close> is that content, a parameter of the model.
\<close>

definition np_divide_where :: "(nat \<Rightarrow> nat \<Rightarrow> npfloat) \<Rightarrow> nat list list \<Rightarrow> npfloat list list" where
  "np_divide_where uninit t =
     map (\<lambda>r. let row_sum = sum_list (t ! r)
               in map (\<lambda>c. if row_sum \<noteq> 0 then Finite (real (t ! r ! c) / real row_sum)
                            else uninit r c)
                      [0..<length (t ! r)])
         [0..<length t]"

definition calculate_transition_matrix ::
    "(nat \<Rightarrow> nat \<Rightarrow> npfloat) \<Rightarrow> int list \<Rightarrow> int \<Rightarrow> int \<Rightarrow> py_error + real list list" where
  "calculate_transition_matrix uninit sequence step base =
     (case np_zeros base of
        Inl e \<Rightarrow> Inl e
      | Inr zeros \<Rightarrow>
          (case count_transitions sequence step
                  [0..<nat (int (length sequence) - step)] zeros of
             Inl e \<Rightarrow> Inl e
           | Inr transitions \<Rightarrow>
               Inr (map (map nan_to_num) (np_divide_where uninit transitions))))"

text \<open>A square count matrix of dimension \<open>n\<close>.\<close>

definition well_shaped :: "nat \<Rightarrow> nat list list \<Rightarrow> bool" where
  "well_shaped n t \<longleftrightarrow> length t = n \<and> (\<forall>r<n. length (t ! r) = n)"

section \<open>Deviation reporter: \<^verbatim>\<open>local_server.py\<close>\<close>

text \<open>
  An entry of the outlier list of the deviation report, with the two keys that
  \<^verbatim>\<open>generate_improvement_suggestions\<close> reads. The argument \<^verbatim>\<open>outliers\<close> of the source is
  \<open>report_outliers\<close> here (the caller passes \<^verbatim>\<open>report['outliers']\<close>).
\<close>

record outlier_info =
  oi_metric :: string
  deviation_type :: string

text \<open>
  The suggestions are fixed texts; each constructor stands for one of them, in the order of
  the source, and carries the parts that are formatted into the text: the favourite and the
  avoided digits of the digit-bias suggestion (an empty list leaves the clause out), the
  phases of the phase-length suggestion.
\<close>

datatype suggestion =
    DigitBias "string list" "string list"
  | Pattern
  | Dependency
  | Variation
  | Predictability
  | Collection
  | PhaseLength "string list"
  | MinorOnly

text \<open>\<^verbatim>\<open>s.startswith(p)\<close> and \<^verbatim>\<open>s.split(sep)\<close> for a one-character separator.\<close>

definition startswith :: "string \<Rightarrow> string \<Rightarrow> bool" where
  "startswith s p = (take (length p) s = p)"

fun str_split :: "char \<Rightarrow> string \<Rightarrow> string list" where
  "str_split sep [] = [[]]"
| "str_split sep (c # cs) =
     (if c = sep then [] # str_split sep cs
      else (case str_split sep cs of
              [] \<Rightarrow> [[c]]
            | p # ps \<Rightarrow> (c # p) # ps))"

text \<open>A list comprehension whose element expression can raise.\<close>

fun comprehension :: "('a \<Rightarrow> py_error + 'b) \<Rightarrow> 'a list \<Rightarrow> py_error + 'b list" where
  "comprehension f [] = Inr []"
| "comprehension f (x # xs) =
     (case f x of
        Inl e \<Rightarrow> Inl e
      | Inr y \<Rightarrow> (case comprehension f xs of Inl e \<Rightarrow> Inl e | Inr ys \<Rightarrow> Inr (y # ys)))"

text \<open>\<^verbatim>\<open>o['metric'].split('_')[1]\<close> and \<^verbatim>\<open>o['metric'][2]\<close> (a string of one character).\<close>

definition digit_of :: "outlier_info \<Rightarrow> py_error + string" where
  "digit_of a = getitem (str_split (CHR ''_'') (oi_metric a)) 1"

definition phase_of :: "outlier_info \<Rightarrow> py_error + string" where
  "phase_of a = (case getitem (oi_metric a) 2 of Inl e \<Rightarrow> Inl e | Inr c \<Rightarrow> Inr [c])"

text \<open>The first block: the digit-bias suggestion, for more than 3 frequency outliers.\<close>

definition frequency_block :: "outlier_info list \<Rightarrow> py_error + suggestion list" where
  "frequency_block report_outliers =
     (let freq_outliers = filter (\<lambda>a. startswith (oi_metric a) ''freq_'') report_outliers in
      if length freq_outliers > 3 then
        (case comprehension digit_of (filter (\<lambda>a. deviation_type a = ''high'') freq_outliers) of
           Inl e \<Rightarrow> Inl e
         | Inr favorite_digits \<Rightarrow>
             (case comprehension digit_of
                     (filter (\<lambda>a. deviation_type a = ''low'') freq_outliers) of
                Inl e \<Rightarrow> Inl e
              | Inr avoided_digits \<Rightarrow> Inr [DigitBias favorite_digits avoided_digits]))
      else Inr [])"

text \<open>The last block but one: the phase-length suggestion.\<close>

definition phase_block :: "outlier_info list \<Rightarrow> py_error + suggestion list" where
  "phase_block report_outliers =
     (let phase_outliers = filter (\<lambda>a. startswith (oi_metric a) ''pl'') report_outliers in
      if length phase_outliers \<ge> 2 then
        (case comprehension phase_of phase_outliers of
           Inl e \<Rightarrow> Inl e
         | Inr phases \<Rightarrow> Inr [PhaseLength phases])
      else Inr [])"

definition generate_improvement_suggestions :: "outlier_info list \<Rightarrow> py_error + suggestion list" where
  "generate_improvement_suggestions report_outliers =
     (case frequency_block report_outliers of
        Inl e \<Rightarrow> Inl e
      | Inr s1 \<Rightarrow>
          (let pattern_outliers =
                 filter (\<lambda>a. oi_metric a \<in> set [''adjacent'', ''rp'', ''pl1'', ''pl2'', ''pl3''])
                        report_outliers;
               s2 = s1 @ (if length pattern_outliers \<ge> 2 then [Pattern] else []);
               dependency_outliers =
                 filter (\<lambda>a. oi_metric a \<in> set [''autocorr_lag1'', ''adjacent'',
                                                  ''repetition_gap_mean''])
                        report_outliers;
               s3 = s2 @ (if length dependency_outliers \<ge> 2 then [Dependency] else []);
               variation_outliers =
                 filter (\<lambda>a. oi_metric a \<in> set [''tpi'', ''adjacent_diff_mean'',
                                                  ''adjacent_diff_std''])
                        report_outliers;
               s4 = s3 @ (if length variation_outliers \<ge> 2 then [Variation] else []);
               s5 = s4 @ (if list_ex (\<lambda>a. oi_metric a = ''redundancy'') report_outliers
                          then [Predictability] else []);
               collection_outliers = filter (\<lambda>a. startswith (oi_metric a) ''coupon'') report_outliers;
               s6 = s5 @ (if length collection_outliers > 0 then [Collection] else [])
           in case phase_block report_outliers of
                Inl e \<Rightarrow> Inl e
              | Inr ph \<Rightarrow>
                  (let s7 = s6 @ ph
                   in Inr (if s7 = [] then [MinorOnly] else s7))))"

text \<open>An example list: four frequency outliers and two pattern-related ones.\<close>

definition example_outliers :: "outlier_info list" where
  "example_outliers =
     [\<lparr> oi_metric = ''freq_0'', deviation_type = ''high'' \<rparr>,
      \<lparr> oi_metric = ''freq_1'', deviation_type = ''high'' \<rparr>,
      \<lparr> oi_metric = ''freq_5'', deviation_type = ''low'' \<rparr>,
      \<lparr> oi_metric = ''freq_7'', deviation_type = ''low'' \<rparr>,
      \<lparr> oi_metric = ''rp'', deviation_type = ''high'' \<rparr>,
      \<lparr> oi_metric = ''pl1'', deviation_type = ''high'' \<rparr>]"

section \<open>Properties of the bounds comparator\<close>

subsection \<open>What the loop returns, and when\<close>

lemma scan_row_Inr:
  assumes "scan_row tm cl row (os, ws, ms) = Inr (os', ws', ms')"
  shows "map o_metric os' = map o_metric os @ map metric (filter (is_outlier tm cl) [row])"
    and "map w_metric ws' = map w_metric ws @ map metric (filter (is_within tm cl) [row])"
    and "ms' = ms @ filter (\<lambda>m. tm m = None) (map metric [row])"
  using assms
  by (auto simp: scan_row_def is_within_def is_outlier_def in_range_def bound_lower_def
      bound_upper_def within_of_def outlier_of_def truediv_def Let_def
      split: option.splits sum.splits if_splits)

lemma scan_rows_Inr:
  assumes "scan_rows tm cl rows (os, ws, ms) = Inr (os', ws', ms')"
  shows "map o_metric os' = map o_metric os @ map metric (filter (is_outlier tm cl) rows)
       \<and> map w_metric ws' = map w_metric ws @ map metric (filter (is_within tm cl) rows)
       \<and> ms' = ms @ filter (\<lambda>m. tm m = None) (map metric rows)"
  using assms
proof (induction rows arbitrary: os ws ms)
  case Nil
  then show ?case by simp
next
  case (Cons row rows)
  from Cons.prems obtain os1 ws1 ms1 where
    s1: "scan_row tm cl row (os, ws, ms) = Inr (os1, ws1, ms1)"
    and s2: "scan_rows tm cl rows (os1, ws1, ms1) = Inr (os', ws', ms')"
    by (auto split: sum.splits)
  from Cons.IH[OF s2] scan_row_Inr[OF s1] show ?case by simp
qed

lemma scan_row_returns:
  "\<not> isl (scan_row tm cl row st) \<longleftrightarrow>
     (metric row \<in> dom tm \<longrightarrow> (cl = 95 \<or> cl = 99) \<and> expected_std row \<noteq> 0)"
  by (cases st rule: prod_cases3) (auto simp: scan_row_def bound_lower_def
      bound_upper_def within_of_def outlier_of_def truediv_def Let_def
      split: option.splits sum.splits if_splits)

lemma scan_rows_returns:
  "\<not> isl (scan_rows tm cl rows st) \<longleftrightarrow>
     (\<forall>row\<in>set rows. metric row \<in> dom tm \<longrightarrow> (cl = 95 \<or> cl = 99) \<and> expected_std row \<noteq> 0)"
proof (induction rows arbitrary: st)
  case Nil
  then show ?case by simp
next
  case (Cons row rows)
  show ?case
  proof (cases "scan_row tm cl row st")
    case (Inl e)
    with scan_row_returns[of tm cl row st] show ?thesis by auto
  next
    case (Inr st1)
    with scan_row_returns[of tm cl row st] Cons.IH[of st1] show ?thesis by auto
  qed
qed

lemma scan_rows_error:
  "scan_rows tm cl rows st = Inl e \<Longrightarrow> e = ZeroDivisionError \<or> e = KeyError"
proof (induction rows arbitrary: st)
  case Nil
  then show ?case by simp
next
  case (Cons row rows)
  show ?case
  proof (cases "scan_row tm cl row st")
    case (Inl e')
    with Cons.prems have "scan_row tm cl row st = Inl e" by simp
    then show ?thesis
      by (cases st rule: prod_cases3) (auto simp: scan_row_def bound_lower_def
      bound_upper_def within_of_def outlier_of_def truediv_def Let_def
      split: option.splits sum.splits if_splits)
  next
    case (Inr st1)
    with Cons show ?thesis by auto
  qed
qed

lemma check_returns_iff:
  "(\<exists>r. check_sequence_randomness tm bt cl = Inr r) \<longleftrightarrow>
     (\<forall>row\<in>set bt. metric row \<in> dom tm \<longrightarrow> (cl = 95 \<or> cl = 99) \<and> expected_std row \<noteq> 0)"
proof -
  have "(\<exists>r. check_sequence_randomness tm bt cl = Inr r) \<longleftrightarrow>
      \<not> isl (scan_rows tm cl bt ([], [], []))"
    by (cases "scan_rows tm cl bt ([], [], [])")
       (auto simp: check_sequence_randomness_def Let_def split: prod.splits)
  then show ?thesis by (simp add: scan_rows_returns)
qed

lemma check_Inr:
  assumes "check_sequence_randomness tm bt cl = Inr r"
  shows "scan_rows tm cl bt ([], [], []) = Inr (outliers r, within_bounds r, missing_metrics r)"
    and "outlier_count r = length (outliers r)"
    and "within_bounds_count r = length (within_bounds r)"
    and "missing_metrics_count r = length (missing_metrics r)"
    and "total_metrics_tested r = length (within_bounds r) + length (outliers r)"
    and "randomness_score r =
          (if length (within_bounds r) + length (outliers r) > 0
           then real (length (within_bounds r)) / real (length (within_bounds r) + length (outliers r))
           else 0)"
    and "assessment r =
          (if randomness_score r > 90 / 100 then ''highly_likely_random''
           else if randomness_score r > 80 / 100 then ''likely_random''
           else if randomness_score r > 70 / 100 then ''possibly_random''
           else if randomness_score r > 50 / 100 then ''possibly_non_random''
           else ''likely_non_random'')"
  using assms
  by (auto simp: check_sequence_randomness_def Let_def split: sum.splits prod.splits)

lemma length_filter_mono:
  "(\<And>x. x \<in> set xs \<Longrightarrow> P x \<Longrightarrow> Q x) \<Longrightarrow> length (filter P xs) \<le> length (filter Q xs)"
  by (induction xs) auto

lemma check_lengths:
  assumes "check_sequence_randomness tm bt cl = Inr r"
  shows "length (outliers r) = length (filter (is_outlier tm cl) bt)"
    and "length (within_bounds r) = length (filter (is_within tm cl) bt)"
    and "missing_metrics r = filter (\<lambda>m. tm m = None) (map metric bt)"
proof -
  from scan_rows_Inr[OF check_Inr(1)[OF assms]]
  have a: "map o_metric (outliers r) = map metric (filter (is_outlier tm cl) bt)"
    and b: "map w_metric (within_bounds r) = map metric (filter (is_within tm cl) bt)"
    and c: "missing_metrics r = filter (\<lambda>m. tm m = None) (map metric bt)"
    by simp_all
  from a show "length (outliers r) = length (filter (is_outlier tm cl) bt)"
    by (metis length_map)
  from b show "length (within_bounds r) = length (filter (is_within tm cl) bt)"
    by (metis length_map)
  from c show "missing_metrics r = filter (\<lambda>m. tm m = None) (map metric bt)" .
qed


text \<open>
  Claim C2. The assessment label of every result is read off the score by the strict
  comparisons \<open>> 0.90\<close>, \<open>> 0.80\<close>, \<open>> 0.70\<close>, \<open>> 0.50\<close>; a score of exactly 0.90 is
  labelled \<open>likely_random\<close>.
\<close>

theorem assessment_thresholds:
  assumes "check_sequence_randomness tm bt cl = Inr r"
  shows "assessment r =
          (if randomness_score r > 90 / 100 then ''highly_likely_random''
           else if randomness_score r > 80 / 100 then ''likely_random''
           else if randomness_score r > 70 / 100 then ''possibly_random''
           else if randomness_score r > 50 / 100 then ''possibly_non_random''
           else ''likely_non_random'')
       \<and> (randomness_score r = 90 / 100 \<longrightarrow> assessment r = ''likely_random'')"
  using check_Inr(7)[OF assms] by simp

text \<open>
  Claim C6. When every row's 99% interval \<open>[bound_99_lower, bound_99_upper]\<close> contains its
  95% interval, the call at level 99 returns exactly when the call at level 95 does, and
  its outlier count is not larger.
\<close>

theorem outlier_count_monotone:
  assumes "\<forall>row\<in>set bt. {bound_95_lower row .. bound_95_upper row}
                           \<subseteq> {bound_99_lower row .. bound_99_upper row}"
  shows "((\<exists>r. check_sequence_randomness tm bt 95 = Inr r)
            \<longleftrightarrow> (\<exists>r. check_sequence_randomness tm bt 99 = Inr r))
       \<and> (\<forall>r95 r99. check_sequence_randomness tm bt 95 = Inr r95
                  \<and> check_sequence_randomness tm bt 99 = Inr r99
              \<longrightarrow> outlier_count r99 \<le> outlier_count r95)"
proof -
  have ret: "(\<exists>r. check_sequence_randomness tm bt 95 = Inr r)
            \<longleftrightarrow> (\<exists>r. check_sequence_randomness tm bt 99 = Inr r)"
    by (simp add: check_returns_iff)
  have mono: "outlier_count r99 \<le> outlier_count r95"
    if h95: "check_sequence_randomness tm bt 95 = Inr r95"
    and h99: "check_sequence_randomness tm bt 99 = Inr r99" for r95 r99
  proof -
    have "length (filter (is_outlier tm 99) bt) \<le> length (filter (is_outlier tm 95) bt)"
    proof (rule length_filter_mono)
      fix row assume row: "row \<in> set bt" "is_outlier tm 99 row"
      from row(2) obtain v where v: "tm (metric row) = Some v"
        and out: "v \<notin> {bound_99_lower row .. bound_99_upper row}"
        by (auto simp: is_outlier_def in_range_def split: option.splits)
      from assms row(1) out have "v \<notin> {bound_95_lower row .. bound_95_upper row}"
        by blast
      with v show "is_outlier tm 95 row"
        by (simp add: is_outlier_def in_range_def)
    qed
    with check_Inr(2)[OF h95] check_Inr(2)[OF h99] check_lengths(1)[OF h95] check_lengths(1)[OF h99]
    show ?thesis by simp
  qed
  from ret mono show ?thesis by blast
qed

text \<open>
  Claim C4. The standardized distance \<^verbatim>\<open>abs(value - expected_mean) / expected_std\<close> is
  computed without a guard: for a row with \<open>expected_std = 0\<close> whose metric is in the record
  the call raises ZeroDivisionError instead of recording the distance 0. (The neighbouring
  division by \<^verbatim>\<open>expected_mean\<close> has a fallback denominator.)
\<close>

theorem std_distance_unguarded:
  "check_sequence_randomness [''redundancy'' \<mapsto> 1 / 100]
     [\<lparr> metric = ''redundancy'', expected_mean = 1 / 100, expected_std = 0,
        bound_95_lower = 1 / 100, bound_95_upper = 1 / 100,
        bound_99_lower = 1 / 100, bound_99_upper = 1 / 100,
        interpretation_text = '''' \<rparr>] 95
   = Inl ZeroDivisionError"
  by (simp add: check_sequence_randomness_def scan_row_def bound_lower_def bound_upper_def
      within_of_def truediv_def)

text \<open>
  In general: at the levels 95 and 99 the only exception is ZeroDivisionError, and it is
  raised as soon as one row with \<open>expected_std = 0\<close> has its metric in the record, whether
  the value is within the bounds or not.
\<close>

lemma scan_rows_error_level:
  "cl = 95 \<or> cl = 99 \<Longrightarrow> scan_rows tm cl rows st = Inl e \<Longrightarrow> e = ZeroDivisionError"
proof (induction rows arbitrary: st)
  case Nil
  then show ?case by simp
next
  case (Cons row rows)
  show ?case
  proof (cases "scan_row tm cl row st")
    case (Inl e')
    with Cons.prems have "scan_row tm cl row st = Inl e" by simp
    with Cons.prems(1) show ?thesis
      by (cases st rule: prod_cases3) (auto simp: scan_row_def bound_lower_def
      bound_upper_def within_of_def outlier_of_def truediv_def Let_def
      split: option.splits sum.splits if_splits)
  next
    case (Inr st1)
    with Cons show ?thesis by auto
  qed
qed

lemma zero_std_raises:
  assumes "cl = 95 \<or> cl = 99" and "row \<in> set bt" and "metric row \<in> dom tm"
    and "expected_std row = 0"
  shows "check_sequence_randomness tm bt cl = Inl ZeroDivisionError"
proof (cases "check_sequence_randomness tm bt cl")
  case (Inl e)
  then have "scan_rows tm cl bt ([], [], []) = Inl e"
    by (auto simp: check_sequence_randomness_def Let_def split: sum.splits prod.splits)
  from scan_rows_error_level[OF assms(1) this] Inl show ?thesis by simp
next
  case (Inr r)
  then have "\<exists>r. check_sequence_randomness tm bt cl = Inr r" by blast
  with assms(2-4) show ?thesis unfolding check_returns_iff by blast
qed

lemma example_returns:
  "\<exists>r. check_sequence_randomness example_metrics example_table cl = Inr r"
  if "cl = 95 \<or> cl = 99"
  using that unfolding check_returns_iff by (auto simp: example_table_def example_row_def)

lemma example_within_95: "length (filter (is_within example_metrics 95) example_table) = 9"
  by (simp add: example_table_def example_metrics_def example_row_def is_within_def in_range_def)

lemma example_outlier_95: "length (filter (is_outlier example_metrics 95) example_table) = 1"
  by (simp add: example_table_def example_metrics_def example_row_def is_outlier_def in_range_def)

lemma example_outlier_99: "length (filter (is_outlier example_metrics 99) example_table) = 0"
  by (simp add: example_table_def example_metrics_def example_row_def is_outlier_def in_range_def)


text \<open>
  Claim C2 at the example inputs: the score is exactly 0.90 and the label is \<open>likely_random\<close>.
\<close>

theorem assessment_thresholds_witness:
  "\<exists>r. check_sequence_randomness example_metrics example_table 95 = Inr r
     \<and> randomness_score r = 90 / 100 \<and> assessment r = ''likely_random''"
proof -
  obtain r where h: "check_sequence_randomness example_metrics example_table 95 = Inr r"
    using example_returns[of 95] by auto
  have "randomness_score r = 90 / 100"
    using check_Inr(6)[OF h] check_lengths(1,2)[OF h] example_within_95 example_outlier_95
    by simp
  with assessment_thresholds[OF h] h show ?thesis by blast
qed

text \<open>
  Claim C6 at the example inputs: one outlier at level 95, none at level 99.
\<close>

theorem outlier_count_monotone_witness:
  "list_all (\<lambda>row. {bound_95_lower row .. bound_95_upper row}
                       \<subseteq> {bound_99_lower row .. bound_99_upper row}) example_table
   \<and> (\<exists>r95 r99. check_sequence_randomness example_metrics example_table 95 = Inr r95
         \<and> check_sequence_randomness example_metrics example_table 99 = Inr r99
         \<and> outlier_count r95 = 1 \<and> outlier_count r99 = 0
         \<and> outlier_count r99 \<le> outlier_count r95)"
proof -
  have c: "\<forall>row\<in>set example_table. {bound_95_lower row .. bound_95_upper row}
                           \<subseteq> {bound_99_lower row .. bound_99_upper row}"
    by (simp add: example_table_def example_row_def)
  obtain r95 where h95: "check_sequence_randomness example_metrics example_table 95 = Inr r95"
    using example_returns[of 95] by auto
  obtain r99 where h99: "check_sequence_randomness example_metrics example_table 99 = Inr r99"
    using example_returns[of 99] by auto
  have n95: "outlier_count r95 = 1"
    using check_Inr(2)[OF h95] check_lengths(1)[OF h95] example_outlier_95 by simp
  have n99: "outlier_count r99 = 0"
    using check_Inr(2)[OF h99] check_lengths(1)[OF h99] example_outlier_99 by simp
  from outlier_count_monotone[OF c, of example_metrics] h95 h99
  have "outlier_count r99 \<le> outlier_count r95" by blast
  moreover have "list_all (\<lambda>row. {bound_95_lower row .. bound_95_upper row}
                       \<subseteq> {bound_99_lower row .. bound_99_upper row}) example_table"
    using c by (simp only: list_all_iff)
  ultimately show ?thesis using h95 h99 n95 n99 by blast
qed

lemma count_list_map_filter_distinct:
  "distinct (map f xs) \<Longrightarrow>
     count_list (map f (filter P xs)) m = (if \<exists>x\<in>set xs. f x = m \<and> P x then 1 else 0)"
  by (induction xs) (auto simp: image_iff)

text \<open>
  Claim C3, amended. For a table with unique metric keys, in every result: each name of the
  table that is in the record occurs exactly once among the within-bounds and outlier
  entries together and is not reported missing; each name of the table that is absent from
  the record is reported missing exactly once and is not classified; a name that is not in
  the table (whether in the record or not) is neither classified nor reported; and the
  score denominator \<open>total_metrics_tested\<close> is the number of names that are both in the table
  and in the record.
\<close>

theorem classification_partition:
  assumes "distinct (map metric bt)"
    and "check_sequence_randomness tm bt cl = Inr r"
  shows "(\<forall>m \<in> metric ` set bt.
            (m \<in> dom tm \<longrightarrow>
               count_list (map w_metric (within_bounds r) @ map o_metric (outliers r)) m = 1
               \<and> m \<notin> set (missing_metrics r))
          \<and> (m \<notin> dom tm \<longrightarrow>
               count_list (missing_metrics r) m = 1
               \<and> m \<notin> set (map w_metric (within_bounds r) @ map o_metric (outliers r))))
       \<and> (\<forall>m. m \<notin> metric ` set bt \<longrightarrow>
               m \<notin> set (missing_metrics r)
               \<and> m \<notin> set (map w_metric (within_bounds r) @ map o_metric (outliers r)))
       \<and> total_metrics_tested r = card (metric ` set bt \<inter> dom tm)"
proof -
  from scan_rows_Inr[OF check_Inr(1)[OF assms(2)]]
  have os: "map o_metric (outliers r) = map metric (filter (is_outlier tm cl) bt)"
    and ws: "map w_metric (within_bounds r) = map metric (filter (is_within tm cl) bt)"
    and ms: "missing_metrics r = filter (\<lambda>m. tm m = None) (map metric bt)"
    by simp_all
  have ms': "missing_metrics r = map metric (filter (\<lambda>row. tm (metric row) = None) bt)"
    by (simp add: ms filter_map comp_def)
  have cw: "count_list (map w_metric (within_bounds r)) m =
      (if \<exists>row\<in>set bt. metric row = m \<and> is_within tm cl row then 1 else 0)" for m
    unfolding ws by (rule count_list_map_filter_distinct[OF assms(1)])
  have co: "count_list (map o_metric (outliers r)) m =
      (if \<exists>row\<in>set bt. metric row = m \<and> is_outlier tm cl row then 1 else 0)" for m
    unfolding os by (rule count_list_map_filter_distinct[OF assms(1)])
  have cm: "count_list (missing_metrics r) m =
      (if \<exists>row\<in>set bt. metric row = m \<and> tm (metric row) = None then 1 else 0)" for m
    unfolding ms' by (rule count_list_map_filter_distinct[OF assms(1)])
  have p1: "count_list (map w_metric (within_bounds r) @ map o_metric (outliers r)) m = 1
            \<and> m \<notin> set (missing_metrics r)"
    if "m \<in> metric ` set bt" "m \<in> dom tm" for m
  proof -
    from that obtain row v where row: "row \<in> set bt" "metric row = m" "tm m = Some v" by auto
    have uniq: "row' = row" if "row' \<in> set bt" "metric row' = m" for row'
      using that row assms(1) by (metis distinct_map inj_onD)
    have ex: "(\<exists>row'\<in>set bt. metric row' = m \<and> P row') \<longleftrightarrow> P row" for P
      using uniq row(1,2) by blast
    have "is_within tm cl row \<noteq> is_outlier tm cl row"
      using row by (simp add: is_within_def is_outlier_def)
    then have "count_list (map w_metric (within_bounds r)) m
                   + count_list (map o_metric (outliers r)) m = 1"
      unfolding cw co ex by (cases "is_within tm cl row") simp_all
    moreover have "m \<notin> set (missing_metrics r)"
      using row by (auto simp: ms)
    ultimately show ?thesis by simp
  qed
  have p2: "count_list (missing_metrics r) m = 1
            \<and> m \<notin> set (map w_metric (within_bounds r) @ map o_metric (outliers r))"
    if "m \<in> metric ` set bt" "m \<notin> dom tm" for m
  proof -
    from that have "tm m = None" by auto
    with that(1) have "count_list (missing_metrics r) m = 1"
      unfolding cm by auto
    moreover have "m \<notin> set (map w_metric (within_bounds r) @ map o_metric (outliers r))"
      using \<open>tm m = None\<close> unfolding set_append os ws
      by (auto simp: is_within_def is_outlier_def)
    ultimately show ?thesis by simp
  qed
  have p3: "m \<notin> set (missing_metrics r)
            \<and> m \<notin> set (map w_metric (within_bounds r) @ map o_metric (outliers r))"
    if "m \<notin> metric ` set bt" for m
    using that unfolding set_append os ws ms by auto
  have "total_metrics_tested r = length (filter (\<lambda>row. metric row \<in> dom tm) bt)"
  proof -
    have "length (filter (is_within tm cl) bt) + length (filter (is_outlier tm cl) bt)
          = length (filter (\<lambda>row. metric row \<in> dom tm) bt)"
      by (induction bt) (auto simp: is_within_def is_outlier_def split: option.splits)
    with check_Inr(5)[OF assms(2)] check_lengths(1,2)[OF assms(2)] show ?thesis by simp
  qed
  also have "\<dots> = length (map metric (filter (\<lambda>row. metric row \<in> dom tm) bt))" by simp
  also have "\<dots> = card (set (map metric (filter (\<lambda>row. metric row \<in> dom tm) bt)))"
    by (rule distinct_card[symmetric]) (rule distinct_map_filter[OF assms(1)])
  also have "set (map metric (filter (\<lambda>row. metric row \<in> dom tm) bt)) = metric ` set bt \<inter> dom tm"
    by auto
  finally have p4: "total_metrics_tested r = card (metric ` set bt \<inter> dom tm)" .
  from p1 p2 p3 p4 show ?thesis by blast
qed

text \<open>
  Claim C3, as stated, fails: a metric name of the record that is absent from the bounds
  table (\<open>extra\<close> below) is not reported as missing; the loop runs over the rows of the
  table and never looks at it.
\<close>

theorem missing_reported_counterexample:
  "check_sequence_randomness [''redundancy'' \<mapsto> 10 / 1000, ''extra'' \<mapsto> 1]
     [example_row ''redundancy''] 95
   = Inr \<lparr> randomness_score = 1, assessment = ''highly_likely_random'', confidence_level = 95,
           total_metrics_tested = 1, within_bounds_count = 1, outlier_count = 0,
           severe_outlier_count = 0, missing_metrics_count = 0, outliers = [],
           within_bounds = [\<lparr> w_metric = ''redundancy'', w_value = 10 / 1000,
                             w_expected_range = (5 / 1000, 25 / 1000),
                             w_distance_from_mean = 1 \<rparr>],
           missing_metrics = [] \<rparr>"
  by (simp add: check_sequence_randomness_def scan_row_def bound_lower_def bound_upper_def
      within_of_def truediv_def example_row_def)

text \<open>
  Claim C3 (amended) at a table with the rows \<open>redundancy\<close> and \<open>tpi\<close> and a record with \<open>redundancy\<close> and \<open>extra\<close>.
\<close>

theorem classification_partition_witness:
  "distinct (map metric [example_row ''redundancy'', example_row ''tpi''])
   \<and> (\<exists>r. check_sequence_randomness [''redundancy'' \<mapsto> 10 / 1000, ''extra'' \<mapsto> 1]
              [example_row ''redundancy'', example_row ''tpi''] 95 = Inr r
          \<and> count_list (map w_metric (within_bounds r) @ map o_metric (outliers r)) ''redundancy'' = 1
          \<and> count_list (missing_metrics r) ''tpi'' = 1
          \<and> ''extra'' \<notin> set (missing_metrics r)
          \<and> total_metrics_tested r = 1)"
proof -
  let ?tm = "[''redundancy'' \<mapsto> 10 / 1000, ''extra'' \<mapsto> (1::real)]"
  let ?bt = "[example_row ''redundancy'', example_row ''tpi'']"
  have d: "distinct (map metric ?bt)" by (simp add: example_row_def)
  obtain r where h: "check_sequence_randomness ?tm ?bt 95 = Inr r"
    using check_returns_iff[of ?tm ?bt 95] by (auto simp: example_row_def)
  have names: "metric ` set ?bt = {''redundancy'', ''tpi''}" by (simp add: example_row_def)
  have inter: "metric ` set ?bt \<inter> dom ?tm = {''redundancy''}"
    unfolding names by auto
  from classification_partition[OF d h]
  have "count_list (map w_metric (within_bounds r) @ map o_metric (outliers r)) ''redundancy'' = 1"
    and "count_list (missing_metrics r) ''tpi'' = 1"
    and "''extra'' \<notin> set (missing_metrics r)"
    and "total_metrics_tested r = 1"
    unfolding inter names by simp_all
  with d h show ?thesis by blast
qed

section \<open>Properties of the metric library\<close>

subsection \<open>\<^verbatim>\<open>coupon\<close>\<close>

lemma has_all_length:
  assumes "has_all base t"
  shows "base \<le> int (length t)"
proof -
  from assms have "{0..base - 1} \<subseteq> set t"
    by (auto simp: has_all_def list_all_iff)
  then have "card {0..base - 1} \<le> card (set t)"
    by (intro card_mono) auto
  also have "\<dots> \<le> length t" by (rule card_length)
  finally show ?thesis by simp
qed

lemma collect_from_Some:
  "collect_from base tmp rest = Some n \<Longrightarrow>
     length tmp < n \<and> n \<le> length tmp + length rest
     \<and> has_all base (tmp @ take (n - length tmp) rest)
     \<and> (\<forall>k. length tmp < k \<and> k < n \<longrightarrow> \<not> has_all base (tmp @ take (k - length tmp) rest))"
proof (induction rest arbitrary: tmp)
  case Nil
  then show ?case by simp
next
  case (Cons x rest)
  show ?case
  proof (cases "has_all base (tmp @ [x])")
    case True
    with Cons.prems have "n = Suc (length tmp)" by simp
    with True show ?thesis by auto
  next
    case False
    with Cons.prems have c: "collect_from base (tmp @ [x]) rest = Some n" by simp
    from Cons.IH[OF c] have ih1: "Suc (length tmp) < n" "n \<le> Suc (length tmp) + length rest"
      and ih2: "has_all base ((tmp @ [x]) @ take (n - Suc (length tmp)) rest)"
      and ih3: "\<And>k. Suc (length tmp) < k \<Longrightarrow> k < n \<Longrightarrow>
                  \<not> has_all base ((tmp @ [x]) @ take (k - Suc (length tmp)) rest)"
      by simp_all
    have t: "tmp @ take (k - length tmp) (x # rest) = (tmp @ [x]) @ take (k - Suc (length tmp)) rest"
      if "length tmp < k" for k
    proof -
      from that have "k - length tmp = Suc (k - Suc (length tmp))" by simp
      then show ?thesis by simp
    qed
    have "\<not> has_all base (tmp @ take (k - length tmp) (x # rest))"
      if "length tmp < k" "k < n" for k
    proof (cases "k = Suc (length tmp)")
      case True
      with False show ?thesis by simp
    next
      case False
      with that have "Suc (length tmp) < k" by simp
      from ih3[OF this that(2)] t[OF that(1)] show ?thesis by simp
    qed
    moreover have "has_all base (tmp @ take (n - length tmp) (x # rest))"
      using ih2 t[of n] ih1(1) by simp
    ultimately show ?thesis using ih1 by auto
  qed
qed

lemma coupon_res_mem:
  "n \<in> set (coupon_res z base) \<longleftrightarrow> (\<exists>i<length z. collect_from base [] (drop i z) = Some n)"
  by (force simp: coupon_res_def List.map_filter_def image_iff)

lemma sum_list_ge_length:
  fixes xs :: "real list"
  shows "\<forall>x\<in>set xs. b \<le> x \<Longrightarrow> b * real (length xs) \<le> sum_list xs"
  by (induction xs) (auto simp: algebra_simps)

text \<open>
  Claim C10. Every completion length recorded by \<^verbatim>\<open>coupon\<close> is at least \<open>base\<close>; hence,
  whenever at least one starting position completes a full set, the mean returned is at
  least \<open>base\<close>. (By \<open>collect_from_Some\<close> a recorded length is the least length of a run
  from its starting index that contains every symbol of \<open>range(base)\<close>.)
\<close>

theorem coupon_completion_at_least_base:
  "(\<forall>n\<in>set (coupon_res z base). base \<le> int n)
   \<and> (coupon_res z base \<noteq> [] \<longrightarrow> real_of_int base \<le> mean (coupon z base))"
proof -
  have a: "base \<le> int n" if "n \<in> set (coupon_res z base)" for n
  proof -
    from that obtain i where "collect_from base [] (drop i z) = Some n"
      by (auto simp: coupon_res_mem)
    from collect_from_Some[OF this] have "has_all base (take n (drop i z))"
      and "n \<le> length (drop i z)" by simp_all
    from has_all_length[OF this(1)] this(2) show ?thesis by simp
  qed
  have b: "real_of_int base \<le> mean (coupon z base)" if ne: "coupon_res z base \<noteq> []"
  proof -
    let ?res = "coupon_res z base"
    have "real_of_int base \<le> x" if "x \<in> set (map real ?res)" for x
      using that a by auto (metis of_int_le_iff of_int_of_nat_eq)
    then have "\<forall>x\<in>set (map real ?res). real_of_int base \<le> x" by blast
    from sum_list_ge_length[OF this]
    have "real_of_int base * real (length ?res) \<le> sum_list (map real ?res)" by simp
    moreover have "0 < real (length ?res)" using ne by simp
    ultimately have "real_of_int base \<le> sum_list (map real ?res) / real (length ?res)"
      by (simp add: pos_le_divide_eq)
    then show ?thesis using ne by (simp add: coupon_def statistics_mean_def Let_def)
  qed
  from a b show ?thesis by blast
qed

lemma example_coupon_res: "coupon_res [0, 1, 1, 0, 2, 0] 3 = [5, 4, 3]"
  by code_simp

text \<open>Claim C10 at the sequence 0, 1, 1, 0, 2, 0 over three symbols: the lengths are 5, 4, 3.\<close>

theorem coupon_completion_at_least_base_witness:
  "coupon_res [0, 1, 1, 0, 2, 0] 3 = [5, 4, 3]
   \<and> list_all (\<lambda>n. 3 \<le> int n) (coupon_res [0, 1, 1, 0, 2, 0] 3)
   \<and> real_of_int 3 \<le> mean (coupon [0, 1, 1, 0, 2, 0] 3)"
proof -
  have ne: "coupon_res [0, 1, 1, 0, 2, 0] 3 \<noteq> []"
    by (simp add: example_coupon_res)
  from coupon_completion_at_least_base[of "[0, 1, 1, 0, 2, 0]" 3] ne
  have "list_all (\<lambda>n. 3 \<le> int n) (coupon_res [0, 1, 1, 0, 2, 0] 3)"
    and "real_of_int 3 \<le> mean (coupon [0, 1, 1, 0, 2, 0] 3)"
    by (simp_all add: list_all_iff)
  with example_coupon_res show ?thesis by blast
qed

subsection \<open>\<^verbatim>\<open>redundancy\<close>\<close>










subsection \<open>\<^verbatim>\<open>pl1\<close> to \<^verbatim>\<open>pl5\<close> and the global generator\<close>













section \<open>Properties of the transition matrix engine\<close>

lemma well_shaped_increment: "well_shaped n t \<Longrightarrow> well_shaped n (increment t r c)"
proof (cases "r < length t")
  case True
  assume "well_shaped n t"
  with True show ?thesis
    by (auto simp: well_shaped_def increment_def nth_list_update)
next
  case False
  assume "well_shaped n t"
  with False show ?thesis
    by (simp add: well_shaped_def increment_def list_update_beyond)
qed

lemma count_transitions_shape:
  "count_transitions sequence step is t = Inr t' \<Longrightarrow> well_shaped n t \<Longrightarrow> well_shaped n t'"
proof (induction "is" arbitrary: t)
  case Nil
  then show ?case by simp
next
  case (Cons i rest)
  from Cons.prems(1) obtain r c where "count_transitions sequence step rest (increment t r c) = Inr t'"
    by (auto split: sum.splits)
  from Cons.IH[OF this well_shaped_increment[OF Cons.prems(2)]] show ?case .
qed

lemma normalised_row:
  fixes row :: "nat list"
  assumes "sum_list row \<noteq> 0"
  shows "sum_list (map (\<lambda>c. real c / real (sum_list row)) row) = 1"
    and "\<forall>x\<in>set (map (\<lambda>c. real c / real (sum_list row)) row). 0 \<le> x"
proof -
  have "sum_list (map (\<lambda>c. real c / s) row) = real (sum_list row) / s" for s :: real
    by (induction row) (simp_all add: add_divide_distrib)
  with assms show "sum_list (map (\<lambda>c. real c / real (sum_list row)) row) = 1" by simp
  show "\<forall>x\<in>set (map (\<lambda>c. real c / real (sum_list row)) row). 0 \<le> x" by auto
qed

text \<open>
  What does hold of every matrix returned: it has \<open>base\<close> rows, and a row is either
  non-negative with sum 1 (a source symbol with at least one transition) or, for a source
  symbol without transitions, the uninitialised content after \<^verbatim>\<open>nan_to_num\<close>.
\<close>

lemma transition_rows:
  assumes "calculate_transition_matrix uninit sequence step base = Inr P"
  shows "length P = nat base"
    and "\<forall>r<nat base.
          (sum_list (P ! r) = 1 \<and> (\<forall>x\<in>set (P ! r). 0 \<le> x))
          \<or> P ! r = map (\<lambda>c. nan_to_num (uninit r c)) [0..<nat base]"
proof -
  from assms obtain zeros t where z: "np_zeros base = Inr zeros"
    and t: "count_transitions sequence step [0..<nat (int (length sequence) - step)] zeros = Inr t"
    and P: "P = map (map nan_to_num) (np_divide_where uninit t)"
    by (auto simp: calculate_transition_matrix_def split: sum.splits)
  from z have "well_shaped (nat base) zeros"
    by (auto simp: np_zeros_def well_shaped_def split: if_splits)
  from count_transitions_shape[OF t this] have ws: "well_shaped (nat base) t" .
  then have len: "length t = nat base" and rows: "\<And>r. r < nat base \<Longrightarrow> length (t ! r) = nat base"
    by (auto simp: well_shaped_def)
  show "length P = nat base" by (simp add: P np_divide_where_def len)
  show "\<forall>r<nat base.
          (sum_list (P ! r) = 1 \<and> (\<forall>x\<in>set (P ! r). 0 \<le> x))
          \<or> P ! r = map (\<lambda>c. nan_to_num (uninit r c)) [0..<nat base]"
  proof (intro allI impI)
    fix r assume r: "r < nat base"
    show "(sum_list (P ! r) = 1 \<and> (\<forall>x\<in>set (P ! r). 0 \<le> x))
          \<or> P ! r = map (\<lambda>c. nan_to_num (uninit r c)) [0..<nat base]"
    proof (cases "sum_list (t ! r) = 0")
      case True
      have "P ! r = map (\<lambda>c. nan_to_num (if sum_list (t ! r) \<noteq> 0
                 then Finite (real (t ! r ! c) / real (sum_list (t ! r))) else uninit r c))
               [0..<nat base]"
        using r by (simp add: P np_divide_where_def len rows Let_def comp_def del: sum_list_eq_0_iff)
      then have "P ! r = map (\<lambda>c. nan_to_num (uninit r c)) [0..<nat base]"
        unfolding True by simp
      then show ?thesis by simp
    next
      case False
      have "P ! r = map (\<lambda>c. nan_to_num (if sum_list (t ! r) \<noteq> 0
                 then Finite (real (t ! r ! c) / real (sum_list (t ! r))) else uninit r c))
               [0..<nat base]"
        using r by (simp add: P np_divide_where_def len rows Let_def comp_def del: sum_list_eq_0_iff)
      also have "\<dots> = map (\<lambda>c. real (t ! r ! c) / real (sum_list (t ! r))) [0..<length (t ! r)]"
        using False r by (simp add: rows del: sum_list_eq_0_iff)
      also have "\<dots> = map (\<lambda>c. real c / real (sum_list (t ! r))) (t ! r)"
        by (rule nth_equalityI) simp_all
      finally show ?thesis using normalised_row[OF False] by simp
    qed
  qed
qed

text \<open>
  Claim C5. The rows of a source symbol without outgoing transitions are not zeroed: the
  sequence 0, 1 over two symbols has no transition out of 1, and the second row of the
  result is what the uninitialised result array of \<^verbatim>\<open>np.divide\<close> held (7.0 in both cells
  here), neither all-zero nor of sum 1.
\<close>

theorem zero_row_uninitialised:
  "calculate_transition_matrix (\<lambda>r c. Finite 7) [0, 1] 1 2 = Inr [[0, 1], [7, 7]]"
  by (simp add: calculate_transition_matrix_def np_zeros_def getitem_def norm_index_def
      increment_def np_divide_where_def numeral_eq_Suc upt_rec)

section \<open>Properties of the deviation reporter\<close>

lemma str_split_nonempty: "str_split sep s \<noteq> []"
  by (induction s) (auto split: list.splits)

lemma str_split_prefix:
  "sep \<notin> set p \<Longrightarrow> str_split sep (p @ sep # rest) = p # str_split sep rest"
  by (induction p) (auto split: list.splits)

lemma startswith_append: "startswith s p \<Longrightarrow> \<exists>rest. s = p @ rest"
  unfolding startswith_def by (metis append_take_drop_id)

lemma digit_of_freq:
  assumes "startswith (oi_metric a) ''freq_''"
  shows "\<exists>d. digit_of a = Inr d"
proof -
  from startswith_append[OF assms] obtain rest where "oi_metric a = ''freq_'' @ rest" by blast
  then have m: "oi_metric a = ''freq'' @ CHR ''_'' # rest" by simp
  have "str_split (CHR ''_'') (oi_metric a) = ''freq'' # str_split (CHR ''_'') rest"
    unfolding m by (rule str_split_prefix) simp
  moreover obtain p ps where "str_split (CHR ''_'') rest = p # ps"
    using str_split_nonempty[of "CHR ''_''" rest] by (cases "str_split (CHR ''_'') rest") auto
  ultimately show ?thesis by (simp add: digit_of_def getitem_def norm_index_def)
qed

lemma comprehension_total:
  "\<forall>x\<in>set xs. \<exists>y. f x = Inr y \<Longrightarrow> \<exists>ys. comprehension f xs = Inr ys"
  by (induction xs) auto

lemma frequency_block_Inr:
  "\<exists>fav av. frequency_block os =
     Inr (if length (filter (\<lambda>a. startswith (oi_metric a) ''freq_'') os) > 3
          then [DigitBias fav av] else [])"
proof -
  let ?f = "filter (\<lambda>a. startswith (oi_metric a) ''freq_'') os"
  have "\<exists>ys. comprehension digit_of (filter P ?f) = Inr ys" for P
    by (rule comprehension_total) (auto intro: digit_of_freq)
  then obtain fav av where
    "comprehension digit_of (filter (\<lambda>a. deviation_type a = ''high'') ?f) = Inr fav"
    "comprehension digit_of (filter (\<lambda>a. deviation_type a = ''low'') ?f) = Inr av"
    by metis
  then show ?thesis by (auto simp: frequency_block_def Let_def)
qed

lemma phase_of_Inr: "(\<exists>p. phase_of a = Inr p) \<longleftrightarrow> 3 \<le> length (oi_metric a)"
  by (auto simp: phase_of_def getitem_def norm_index_def split: sum.splits if_splits)

lemma phase_of_error: "phase_of a = Inl e \<Longrightarrow> e = IndexError"
  by (auto simp: phase_of_def getitem_def norm_index_def split: sum.splits if_splits)

lemma comprehension_error:
  "comprehension f xs = Inl e \<Longrightarrow> \<exists>x\<in>set xs. f x = Inl e"
  by (induction xs) (auto split: sum.splits)

lemma phase_block_cases:
  "(\<exists>ph. phase_block os = Inr ph \<and> Pattern \<notin> set ph \<and> (\<forall>f a. DigitBias f a \<notin> set ph))
   \<or> (phase_block os = Inl IndexError \<and> (\<exists>a\<in>set os. oi_metric a = ''pl''))"
proof (cases "comprehension phase_of (filter (\<lambda>a. startswith (oi_metric a) ''pl'') os)")
  case (Inl e)
  from comprehension_error[OF Inl] obtain a where
    a: "a \<in> set os" "startswith (oi_metric a) ''pl''" "phase_of a = Inl e"
    by auto
  from a(3) have e: "e = IndexError" by (rule phase_of_error)
  from a(3) phase_of_Inr[of a] have short: "length (oi_metric a) < 3"
    by (cases "3 \<le> length (oi_metric a)") auto
  from startswith_append[OF a(2)] obtain rest where r: "oi_metric a = ''pl'' @ rest" by blast
  with short have "rest = []" by simp
  with r have "oi_metric a = ''pl''" by simp
  with a(1) Inl e show ?thesis by (auto simp: phase_block_def Let_def)
next
  case (Inr ph)
  then show ?thesis by (auto simp: phase_block_def Let_def)
qed


lemma generate_shape:
  assumes "generate_improvement_suggestions os = Inr s"
  obtains s1 mid ph where "frequency_block os = Inr s1" "phase_block os = Inr ph"
    "set mid \<subseteq> {Pattern, Dependency, Variation, Predictability, Collection}"
    "Pattern \<in> set mid \<longleftrightarrow>
       2 \<le> length (filter (\<lambda>a. oi_metric a \<in> set [''adjacent'', ''rp'', ''pl1'', ''pl2'', ''pl3'']) os)"
    "s = (if s1 @ mid @ ph = [] then [MinorOnly] else s1 @ mid @ ph)"
proof -
  from assms obtain s1 where s1: "frequency_block os = Inr s1"
    by (cases "frequency_block os") (simp_all add: generate_improvement_suggestions_def)
  from assms s1 obtain ph where ph: "phase_block os = Inr ph"
    by (cases "phase_block os") (simp_all add: generate_improvement_suggestions_def Let_def)
  let ?mid = "(if 2 \<le> length (filter (\<lambda>a. oi_metric a \<in> set [''adjacent'', ''rp'', ''pl1'', ''pl2'', ''pl3'']) os) then [Pattern] else [])
    @ (if 2 \<le> length (filter (\<lambda>a. oi_metric a \<in> set [''autocorr_lag1'', ''adjacent'', ''repetition_gap_mean'']) os) then [Dependency] else [])
    @ (if 2 \<le> length (filter (\<lambda>a. oi_metric a \<in> set [''tpi'', ''adjacent_diff_mean'', ''adjacent_diff_std'']) os) then [Variation] else [])
    @ (if list_ex (\<lambda>a. oi_metric a = ''redundancy'') os then [Predictability] else [])
    @ (if 0 < length (filter (\<lambda>a. startswith (oi_metric a) ''coupon'') os) then [Collection] else [])"
  have a: "set ?mid \<subseteq> {Pattern, Dependency, Variation, Predictability, Collection}"
    by (simp only: set_append) (intro Un_least; auto split: if_splits)
  have b: "Pattern \<in> set ?mid \<longleftrightarrow>
       2 \<le> length (filter (\<lambda>a. oi_metric a \<in> set [''adjacent'', ''rp'', ''pl1'', ''pl2'', ''pl3'']) os)"
    by (simp only: set_append Un_iff) (simp split: if_splits)
  have c: "s = (if s1 @ ?mid @ ph = [] then [MinorOnly] else s1 @ ?mid @ ph)"
    using assms unfolding generate_improvement_suggestions_def Let_def s1 ph
    by (simp only: sum.case append_assoc sum.inject)
  from that[OF s1 ph a b c] show thesis .
qed

text \<open>
  Claim C9, amended. The suggestions include the combined digit-bias suggestion exactly when
  the list has more than 3 (at least 4) outliers whose metric name starts with \<open>freq_\<close>,
  and the pattern suggestion exactly when it has at least 2 outliers among \<open>adjacent\<close>,
  \<open>rp\<close>, \<open>pl1\<close>, \<open>pl2\<close>, \<open>pl3\<close>. The call returns a list whenever no outlier is named
  exactly \<open>pl\<close> (for such a name \<^verbatim>\<open>o['metric'][2]\<close> in the phase-length block can raise
  IndexError).
\<close>

theorem improvement_suggestion_triggers:
  "((\<forall>a\<in>set os. oi_metric a \<noteq> ''pl'') \<longrightarrow> (\<exists>s. generate_improvement_suggestions os = Inr s))
   \<and> (\<forall>s. generate_improvement_suggestions os = Inr s \<longrightarrow>
        ((\<exists>fav av. DigitBias fav av \<in> set s)
           \<longleftrightarrow> 3 < length (filter (\<lambda>a. startswith (oi_metric a) ''freq_'') os))
        \<and> (Pattern \<in> set s
           \<longleftrightarrow> 2 \<le> length (filter (\<lambda>a. oi_metric a \<in>
                 set [''adjacent'', ''rp'', ''pl1'', ''pl2'', ''pl3'']) os)))"
proof -
  from frequency_block_Inr[of os] obtain fav av where
    fb: "frequency_block os =
      Inr (if length (filter (\<lambda>a. startswith (oi_metric a) ''freq_'') os) > 3
          then [DigitBias fav av] else [])" by blast
  have ret: "\<exists>s. generate_improvement_suggestions os = Inr s"
    if "\<forall>a\<in>set os. oi_metric a \<noteq> ''pl''"
  proof -
    from phase_block_cases[of os] that obtain ph where "phase_block os = Inr ph" by blast
    then show ?thesis
      unfolding generate_improvement_suggestions_def Let_def fb by simp
  qed
  have res: "((\<exists>fav av. DigitBias fav av \<in> set s)
           \<longleftrightarrow> 3 < length (filter (\<lambda>a. startswith (oi_metric a) ''freq_'') os))
        \<and> (Pattern \<in> set s
           \<longleftrightarrow> 2 \<le> length (filter (\<lambda>a. oi_metric a \<in>
                 set [''adjacent'', ''rp'', ''pl1'', ''pl2'', ''pl3'']) os))"
    if h: "generate_improvement_suggestions os = Inr s" for s
  proof -
    from h obtain s1 mid ph where s1: "frequency_block os = Inr s1"
      and ph: "phase_block os = Inr ph"
      and mid: "set mid \<subseteq> {Pattern, Dependency, Variation, Predictability, Collection}"
      and pat: "Pattern \<in> set mid \<longleftrightarrow>
       2 \<le> length (filter (\<lambda>a. oi_metric a \<in> set [''adjacent'', ''rp'', ''pl1'', ''pl2'', ''pl3'']) os)"
      and s: "s = (if s1 @ mid @ ph = [] then [MinorOnly] else s1 @ mid @ ph)"
      by (rule generate_shape)
    from phase_block_cases[of os] ph
    have ph1: "Pattern \<notin> set ph" and ph2: "\<And>f a. DigitBias f a \<notin> set ph" by auto
    from s1 fb have s1': "s1 = (if length (filter (\<lambda>a. startswith (oi_metric a) ''freq_'') os) > 3
          then [DigitBias fav av] else [])" by simp
    have mid2: "DigitBias f a \<notin> set mid" for f a using mid by auto
    have set_s: "x \<in> set s \<longleftrightarrow> (if s1 @ mid @ ph = [] then x = MinorOnly
                    else x \<in> set s1 \<or> x \<in> set mid \<or> x \<in> set ph)" for x
      unfolding s by simp
    have A: "(\<exists>f a. DigitBias f a \<in> set s)
           \<longleftrightarrow> 3 < length (filter (\<lambda>a. startswith (oi_metric a) ''freq_'') os)"
      unfolding set_s using ph2 mid2 by (auto simp: s1')
    have B: "Pattern \<in> set s
           \<longleftrightarrow> 2 \<le> length (filter (\<lambda>a. oi_metric a \<in>
                 set [''adjacent'', ''rp'', ''pl1'', ''pl2'', ''pl3'']) os)"
      unfolding set_s using ph1 pat by (auto simp: s1')
    from A B show ?thesis by blast
  qed
  from ret res show ?thesis by blast
qed

text \<open>
  Claim C9, as stated, fails at exactly 3 frequency outliers: the test is
  \<^verbatim>\<open>len(freq_outliers) > 3\<close>, and the only suggestion is the closing one for minor deviations.
\<close>

theorem three_frequency_outliers_counterexample:
  "generate_improvement_suggestions
     [\<lparr> oi_metric = ''freq_0'', deviation_type = ''high'' \<rparr>,
      \<lparr> oi_metric = ''freq_1'', deviation_type = ''high'' \<rparr>,
      \<lparr> oi_metric = ''freq_5'', deviation_type = ''low'' \<rparr>]
   = Inr [MinorOnly]"
  by (simp add: generate_improvement_suggestions_def frequency_block_def phase_block_def
      startswith_def)

lemma example_four_frequency:
  "generate_improvement_suggestions example_outliers
   = Inr [DigitBias [''0'', ''1''] [''5'', ''7''], Pattern]"
  by (simp add: example_outliers_def generate_improvement_suggestions_def frequency_block_def
      phase_block_def startswith_def digit_of_def getitem_def norm_index_def)

text \<open>Claim C9 (amended) at the example list: four frequency outliers, two pattern outliers.\<close>

theorem improvement_suggestion_triggers_witness:
  "generate_improvement_suggestions example_outliers
     = Inr [DigitBias [''0'', ''1''] [''5'', ''7''], Pattern]
   \<and> 3 < length (filter (\<lambda>a. startswith (oi_metric a) ''freq_'') example_outliers)
   \<and> 2 \<le> length (filter (\<lambda>a. oi_metric a \<in>
                 set [''adjacent'', ''rp'', ''pl1'', ''pl2'', ''pl3'']) example_outliers)"
proof -
  note h = example_four_frequency
  have d: "\<exists>fav av. DigitBias fav av \<in> set [DigitBias [''0'', ''1''] [''5'', ''7''], Pattern]"
    by auto
  have p: "Pattern \<in> set [DigitBias [''0'', ''1''] [''5'', ''7''], Pattern]" by simp
  from improvement_suggestion_triggers[of example_outliers] h d p
  have "3 < length (filter (\<lambda>a. startswith (oi_metric a) ''freq_'') example_outliers)"
    and "2 \<le> length (filter (\<lambda>a. oi_metric a \<in>
                 set [''adjacent'', ''rp'', ''pl1'', ''pl2'', ''pl3'']) example_outliers)"
    by blast+
  with h show ?thesis by blast
qed

end
